theory Spec2Isabelle
  imports Complex_Main
begin

section \<open>TileGrid: grid composition and square resize\<close>

text \<open>
  A shallow embedding of the two exported functions of the module, \<open>TileGrid\<close> and
  \<open>resize\<close>. The module owns the grid arithmetic, the two validations, the dispatch on
  the kind of \<open>image.data\<close> and the placement of the tiles; reading files (\<open>fs.readFile\<close>)
  and all image work (\<open>sharp\<close>) belong to collaborators. The collaborators are the
  fields of a record \<open>world\<close>, every call to them is written to a list of effects, and
  every \<open>throw\<close> or rejected promise is a value \<open>Inl e\<close>.

  JavaScript numbers are IEEE doubles. The model takes \<open>output\<close>, \<open>padding\<close> and \<open>size\<close>
  to be integers and computes with exact integers and reals, which agrees with the
  doubles as long as all values stay below \<open>2 ^ 53\<close> in magnitude (an array length is
  below \<open>2 ^ 32\<close>, where \<open>Math.sqrt\<close> followed by \<open>Math.ceil\<close> is exact).
\<close>

subsection \<open>Data model\<close>

type_synonym bytes = "nat list"

text \<open>
  The declarations of \<open>Input\<close>, \<open>Options\<close> and \<open>Output\<close> live in \<open>./type\<close>, which is
  not among the sources; the functions below use their fields, and the test suite
  builds values of them.
\<close>

text \<open>
  Modelled from the spec: the type of \<open>Input.data\<close>, a file path or a byte buffer. At
  run time \<open>image.data\<close> may be any JavaScript value, and \<open>TileGrid\<close> tests for that:
  \<open>Other\<close> stands for a value that is neither a string nor a \<open>Buffer\<close> (named by
  its printed form).
\<close>

datatype js_data = Str string | Buf bytes | Other string

text \<open>
  Modelled from the spec: the type \<open>Input\<close>, the data and an optional identifier
  that no computation uses.
\<close>

record Input =
  data :: js_data
  id' :: "string option"

text \<open>
  Modelled from the spec: the type \<open>Options\<close>, with \<open>output\<close> required and
  \<open>background\<close> and \<open>padding\<close> optional. The spec gives \<open>output\<close> as a positive and
  \<open>padding\<close> as a non-negative integer; the source checks neither, so here both are
  any integer and a property that needs the bound says so.
\<close>

record Options =
  "output" :: int
  background :: "string option"
  padding :: "int option"

text \<open>
  Modelled from the spec: the type \<open>Output\<close>, as the \<open>return\<close> of \<open>TileGrid\<close> builds it.
\<close>

record Output =
  buffer :: bytes
  gridSize :: int
  count :: nat

text \<open>
  The three errors this module throws itself are \<open>new Error(message)\<close>; the spec
  names them, by their message, \<open>EmptyInputError\<close>, \<open>GeometryError\<close> and
  \<open>InvalidInputError\<close>. A rejection of \<open>fs.readFile\<close> or of \<open>sharp\<close> is passed on
  unchanged; it is an object of the collaborator with the collaborator's message, so
  it gets a constructor of its own.
\<close>

datatype error = Error string | FsError string | SharpError string

text \<open>The objects \<open>{ input: imageBuffer, left, top }\<close> handed to \<open>composite\<close>.\<close>

record overlay =
  input :: bytes
  left :: int
  top' :: int

text \<open>
  The calls to the collaborators: \<open>fs.readFile(path)\<close>, the resize pipeline of
  \<open>sharp\<close> on an input with a width and a height, and the composite pipeline on a
  canvas of a side and a background with a list of overlays.
\<close>

datatype effect =
    ReadFile string
  | SharpResize js_data int int
  | SharpComposite int string "overlay list"

subsection \<open>The collaborators\<close>

text \<open>
  A decoded image is its pixel dimensions and its pixels. What \<open>sharp\<close> decodes,
  how it resamples and what it encodes stay open: they are fields of the world.
  \<open>first_rejection\<close> is the scheduler: of \<open>k\<close> rejected promises, which one rejected
  first.
\<close>

record image =
  width :: nat
  height :: nat
  pixel :: "nat \<Rightarrow> nat \<Rightarrow> nat"

record world =
  readFile :: "string \<Rightarrow> string + bytes"
  decode :: "js_data \<Rightarrow> string + image"
  resample :: "image \<Rightarrow> nat \<Rightarrow> nat \<Rightarrow> nat \<Rightarrow> nat \<Rightarrow> nat"
  encode :: "image \<Rightarrow> bytes"
  sharp_composite :: "int \<Rightarrow> string \<Rightarrow> overlay list \<Rightarrow> string + bytes"
  first_rejection :: "nat \<Rightarrow> nat"

text \<open>
  The resize of \<open>sharp\<close> with \<open>fit: 'cover'\<close> and \<open>position: 'center'\<close> is code of
  the library, not of this module. The spec's glossary describes it: scale the source
  so that it fully fills the target box, then crop the overflow symmetrically.
\<close>

text \<open>
  Modelled from the spec: the size of the scaled image. The larger of the two ratios
  \<open>tw / w\<close> and \<open>th / h\<close> is the factor, so one side becomes the target side and the
  other, rounded up, is at least its target side.
\<close>

definition cover_scale :: "nat \<Rightarrow> nat \<Rightarrow> nat \<Rightarrow> nat \<Rightarrow> nat \<times> nat" where
  "cover_scale w h tw th =
     (if th * w \<le> tw * h then (tw, (h * tw + w - 1) div w)
      else ((w * th + h - 1) div h, th))"

text \<open>
  Modelled from the spec: the crop. It cuts the region of \<open>w \<times> h\<close> pixels at
  \<open>(l, t)\<close>, as far as it lies inside the image.
\<close>

definition extract_region :: "image \<Rightarrow> nat \<Rightarrow> nat \<Rightarrow> nat \<Rightarrow> nat \<Rightarrow> image" where
  "extract_region im l t w h =
     \<lparr>width = min w (width im - l), height = min h (height im - t),
      pixel = (\<lambda>x y. pixel im (l + x) (t + y))\<rparr>"

text \<open>
  Modelled from the spec: the cover-fit resize, scaling followed by the centred crop.
\<close>

definition cover_fit :: "world \<Rightarrow> image \<Rightarrow> nat \<Rightarrow> nat \<Rightarrow> image" where
  "cover_fit w im tw th =
     (let (sw, sh) = cover_scale (width im) (height im) tw th;
          scaled = \<lparr>width = sw, height = sh, pixel = resample w im sw sh\<rparr>
      in extract_region scaled ((sw - tw) div 2) ((sh - th) div 2) tw th)"

text \<open>
  Modelled from the spec: the pipeline
  \<open>sharp(input).resize(tw, th, {fit: 'cover', position: 'center'}).png().toBuffer()\<close>,
  that is decode, cover-fit resize, re-encode. The spec gives the target size as a
  positive integer; for any other size the codec rejects the call.
\<close>

definition sharp_resize :: "world \<Rightarrow> js_data \<Rightarrow> int \<Rightarrow> int \<Rightarrow> error + bytes" where
  "sharp_resize w inp tw th =
     (case decode w inp of
        Inl m \<Rightarrow> Inl (SharpError m)
      | Inr im \<Rightarrow>
          if tw \<le> 0 \<or> th \<le> 0 then Inl (SharpError ''Expected positive integer'')
          else Inr (encode w (cover_fit w im (nat tw) (nat th))))"

subsection \<open>Grid geometry\<close>

text \<open>\<open>Math.ceil(Math.sqrt(images.length))\<close>\<close>

definition gridSize_of :: "nat \<Rightarrow> int" where
  "gridSize_of n = \<lceil>sqrt (real n)\<rceil>"

text \<open>\<open>Math.floor((output - padding * (gridSize + 1)) / gridSize)\<close>\<close>

definition tileSize_of :: "int \<Rightarrow> int \<Rightarrow> int \<Rightarrow> int" where
  "tileSize_of out pad grid =
     \<lfloor>real_of_int (out - pad * (grid + 1)) / real_of_int grid\<rfloor>"

text \<open>
  \<open>Math.floor(index / gridSize)\<close> and \<open>index % gridSize\<close>. The index is not negative
  and the grid size is positive where they are used, so the remainder of JavaScript
  is \<open>mod\<close>.
\<close>

definition row_of :: "nat \<Rightarrow> int \<Rightarrow> int" where
  "row_of index grid = \<lfloor>real index / real_of_int grid\<rfloor>"

definition col_of :: "nat \<Rightarrow> int \<Rightarrow> int" where
  "col_of index grid = int index mod grid"

text \<open>
  \<open>padding + col * (tileSize + padding)\<close> and \<open>padding + row * (tileSize + padding)\<close>
\<close>

definition left_of :: "nat \<Rightarrow> int \<Rightarrow> int \<Rightarrow> int \<Rightarrow> int" where
  "left_of index grid tile pad = pad + col_of index grid * (tile + pad)"

definition top_of :: "nat \<Rightarrow> int \<Rightarrow> int \<Rightarrow> int \<Rightarrow> int" where
  "top_of index grid tile pad = pad + row_of index grid * (tile + pad)"

text \<open>The list built by \<open>processed.map((imageBuffer, index) => ...)\<close>.\<close>

definition placements :: "bytes list \<Rightarrow> int \<Rightarrow> int \<Rightarrow> int \<Rightarrow> overlay list" where
  "placements processed grid tile pad =
     map (\<lambda>(imageBuffer, index).
            \<lparr>input = imageBuffer,
             left = left_of index grid tile pad,
             top' = top_of index grid tile pad\<rparr>)
         (zip processed [0..<length processed])"

text \<open>
  An executable square root for the grid size: the least \<open>k\<close> with \<open>n \<le> k * k\<close>,
  found by counting up.
\<close>

function ceil_sqrt_from :: "nat \<Rightarrow> nat \<Rightarrow> nat" where
  "ceil_sqrt_from k n = (if k * k < n then ceil_sqrt_from (Suc k) n else k)"
  by pat_completeness auto
termination
proof (relation "measure (\<lambda>(k, n). n - k)")
  show "wf (measure (\<lambda>(k, n). n - k))" by simp
next
  fix k n :: nat
  assume lt: "k * k < n"
  have "k \<le> k * k" by (cases k) simp_all
  with lt have "k < n" by linarith
  then show "((Suc k, n), (k, n)) \<in> measure (\<lambda>(k, n). n - k)" by simp
qed

declare ceil_sqrt_from.simps [simp del]

subsection \<open>The per-image step and \<open>Promise.all\<close>\<close>

text \<open>
  The callback of \<open>images.map\<close>: its result and the collaborator calls it makes.
\<close>

definition processImage :: "world \<Rightarrow> int \<Rightarrow> Input \<Rightarrow> (error + bytes) \<times> effect list" where
  "processImage w tileSize img =
     (case data img of
        Str p \<Rightarrow>
          (case readFile w p of
             Inl m \<Rightarrow> (Inl (FsError m), [ReadFile p])
           | Inr b \<Rightarrow>
               (sharp_resize w (Buf b) tileSize tileSize,
                [ReadFile p, SharpResize (Buf b) tileSize tileSize]))
      | Buf b \<Rightarrow>
          (sharp_resize w (Buf b) tileSize tileSize, [SharpResize (Buf b) tileSize tileSize])
      | Other v \<Rightarrow>
          (Inl (Error ''Invalid image data: must be a file path or Buffer''), []))"

text \<open>The reasons of the rejected and the values of the fulfilled promises, in order.\<close>

fun lefts :: "('e + 'a) list \<Rightarrow> 'e list" where
  "lefts [] = []"
| "lefts (Inl e # rs) = e # lefts rs"
| "lefts (Inr v # rs) = lefts rs"

fun rights :: "('e + 'a) list \<Rightarrow> 'a list" where
  "rights [] = []"
| "rights (Inl e # rs) = rights rs"
| "rights (Inr v # rs) = v # rights rs"

text \<open>
  \<open>Promise.all\<close> fulfils with all values in input order, or rejects with the reason
  of the promise that rejected first in time; the scheduler \<open>first\<close> picks it among
  the rejected ones.
\<close>

definition promise_all :: "(nat \<Rightarrow> nat) \<Rightarrow> (error + 'a) list \<Rightarrow> error + 'a list" where
  "promise_all first rs =
     (let es = lefts rs
      in if es = [] then Inr (rights rs)
         else Inl (es ! (first (length es) mod length es)))"

subsection \<open>The exported functions\<close>

text \<open>
  The defaults of \<open>const { output, background = 'transparent', padding = 0 } = options\<close>.
\<close>

definition background_of :: "Options \<Rightarrow> string" where
  "background_of options =
     (case background options of None \<Rightarrow> ''transparent'' | Some c \<Rightarrow> c)"

definition padding_of :: "Options \<Rightarrow> int" where
  "padding_of options = (case padding options of None \<Rightarrow> 0 | Some p \<Rightarrow> p)"

text \<open>
  Every callback of \<open>images.map\<close> is started, also when another one rejects, so the
  effects of all of them are recorded. Their order in the list is the input order;
  the order in time is up to the scheduler.
\<close>

definition TileGrid :: "world \<Rightarrow> Input list \<Rightarrow> Options \<Rightarrow> (error + Output) \<times> effect list" where
  "TileGrid w images options =
     (if length images = 0 then (Inl (Error ''No images provided''), [])
      else
        let output = Options.output options;
            background = background_of options;
            padding = padding_of options;
            gridSize = gridSize_of (length images);
            tileSize = tileSize_of output padding gridSize
        in if tileSize \<le> 0
           then (Inl (Error ''Output size is too small for the number of images and padding''),
                 [])
           else
             let runs = map (processImage w tileSize) images;
                 effects = concat (map snd runs)
             in (case promise_all (first_rejection w) (map fst runs) of
                   Inl e \<Rightarrow> (Inl e, effects)
                 | Inr processed \<Rightarrow>
                     let composite = placements processed gridSize tileSize padding;
                         call = SharpComposite output background composite
                     in (case sharp_composite w output background composite of
                           Inl m \<Rightarrow> (Inl (SharpError m), effects @ [call])
                         | Inr resultBuffer \<Rightarrow>
                             (Inr \<lparr>buffer = resultBuffer, gridSize = gridSize,
                                   count = length images\<rparr>,
                              effects @ [call]))))"

text \<open>
  \<open>resize\<close> reads the file when \<open>image.data\<close> is a string; its \<open>else\<close> branch takes
  \<open>image.data\<close> as it is, a \<open>Buffer\<close> or any other value, and hands it to \<open>sharp\<close>.
\<close>

definition resize :: "world \<Rightarrow> Input \<Rightarrow> int \<Rightarrow> (error + bytes) \<times> effect list" where
  "resize w img sz =
     (case data img of
        Str p \<Rightarrow>
          (case readFile w p of
             Inl m \<Rightarrow> (Inl (FsError m), [ReadFile p])
           | Inr b \<Rightarrow>
               (sharp_resize w (Buf b) sz sz, [ReadFile p, SharpResize (Buf b) sz sz]))
      | d \<Rightarrow> (sharp_resize w d sz sz, [SharpResize d sz sz]))"

subsection \<open>Compositing\<close>

text \<open>
  Compositing is done by \<open>sharp\<close>, which is not code of this module. The spec says
  that the resized tiles are composited onto the background canvas in input order.
\<close>

text \<open>
  Modelled from the spec: a tile is \<open>tileSize \<times> tileSize\<close> pixels, so it covers the
  square of that side at its position.
\<close>

definition covers :: "int \<Rightarrow> overlay \<Rightarrow> int \<Rightarrow> int \<Rightarrow> bool" where
  "covers tile ov x y \<longleftrightarrow>
     left ov \<le> x \<and> x < left ov + tile \<and> top' ov \<le> y \<and> y < top' ov + tile"

text \<open>
  Modelled from the spec: compositing one tile changes the pixels under the tile
  and leaves all others; what a pixel becomes there (\<open>blend\<close>) stays open.
\<close>

definition draw ::
  "(overlay \<Rightarrow> int \<Rightarrow> int \<Rightarrow> 'c \<Rightarrow> 'c) \<Rightarrow> int \<Rightarrow> (int \<Rightarrow> int \<Rightarrow> 'c) \<Rightarrow> overlay \<Rightarrow> int \<Rightarrow> int \<Rightarrow> 'c" where
  "draw blend tile canvas ov =
     (\<lambda>x y. if covers tile ov x y then blend ov x y (canvas x y) else canvas x y)"

text \<open>
  Modelled from the spec: compositing a list of tiles, one after the other in the
  order of the list.
\<close>

definition composite_pixels ::
  "(overlay \<Rightarrow> int \<Rightarrow> int \<Rightarrow> 'c \<Rightarrow> 'c) \<Rightarrow> int \<Rightarrow> (int \<Rightarrow> int \<Rightarrow> 'c) \<Rightarrow> overlay list \<Rightarrow> int \<Rightarrow> int \<Rightarrow> 'c" where
  "composite_pixels blend tile canvas ovs = foldl (draw blend tile) canvas ovs"

subsection \<open>A small world for concrete runs\<close>

text \<open>
  A codec whose encoded image is just its width and height and which, like \<open>sharp\<close>,
  takes a typed array as input and rejects a number; a file system with one missing
  file; the three-image and the too-small scenario of the test suite.
\<close>

definition demo_world :: world where
  "demo_world =
     \<lparr>readFile = (\<lambda>p. if p = ''missing.png'' then Inl ''ENOENT'' else Inr [200, 100]),
      decode = (\<lambda>d. case d of
                  Str p \<Rightarrow> Inl ''Input file is missing''
                | Buf b \<Rightarrow> (case b of
                     [w, h] \<Rightarrow> Inr \<lparr>width = w, height = h, pixel = (\<lambda>x y. 0)\<rparr>
                   | _ \<Rightarrow> Inl ''Input buffer contains unsupported image format'')
                | Other v \<Rightarrow>
                    if v = ''Uint8Array'' then Inr \<lparr>width = 64, height = 48, pixel = (\<lambda>x y. 0)\<rparr>
                    else Inl ''Unsupported input''),
      resample = (\<lambda>im sw sh x y. 0),
      encode = (\<lambda>im. [width im, height im]),
      sharp_composite = (\<lambda>out bg ovs. Inr [nat out, nat out]),
      first_rejection = (\<lambda>k. 0)\<rparr>"

definition demo_images :: "Input list" where
  "demo_images =
     [\<lparr>data = Str ''generated-image-0.png'', id' = Some ''generated-image-0''\<rparr>,
      \<lparr>data = Buf [60, 60], id' = Some ''buffer-image''\<rparr>,
      \<lparr>data = Str ''generated-image-2.png'', id' = None\<rparr>]"

definition demo_options :: Options where
  "demo_options = \<lparr>output = 300, background = None, padding = Some 5\<rparr>"

definition small_options :: Options where
  "small_options = \<lparr>output = 10, background = None, padding = Some 50\<rparr>"

definition demo_overlays :: "overlay list" where
  "demo_overlays =
     [\<lparr>input = [142, 142], left = 5, top' = 5\<rparr>,
      \<lparr>input = [142, 142], left = 152, top' = 5\<rparr>,
      \<lparr>input = [142, 142], left = 5, top' = 152\<rparr>]"

definition typed_array_input :: Input where
  "typed_array_input = \<lparr>data = Other ''Uint8Array'', id' = None\<rparr>"

definition number_input :: Input where
  "number_input = \<lparr>data = Other ''42'', id' = None\<rparr>"

definition path_input :: Input where
  "path_input = \<lparr>data = Str ''resize-test-generated.png'', id' = None\<rparr>"

text \<open>
  The four-image scenario of the test suite with the options above, and with a
  negative padding, which the source accepts.
\<close>

definition four_images :: "Input list" where
  "four_images =
     [\<lparr>data = Str ''generated-image-0.png'', id' = Some ''generated-image-0''\<rparr>,
      \<lparr>data = Str ''generated-image-1.png'', id' = Some ''generated-image-1''\<rparr>,
      \<lparr>data = Str ''generated-image-2.png'', id' = Some ''generated-image-2''\<rparr>,
      \<lparr>data = Str ''generated-image-3.png'', id' = Some ''generated-image-3''\<rparr>]"

definition four_overlays :: "overlay list" where
  "four_overlays =
     [\<lparr>input = [142, 142], left = 5, top' = 5\<rparr>,
      \<lparr>input = [142, 142], left = 152, top' = 5\<rparr>,
      \<lparr>input = [142, 142], left = 5, top' = 152\<rparr>,
      \<lparr>input = [142, 142], left = 152, top' = 152\<rparr>]"

definition negative_options :: Options where
  "negative_options = \<lparr>output = 100, background = None, padding = Some (- 5)\<rparr>"

definition negative_overlays :: "overlay list" where
  "negative_overlays =
     [\<lparr>input = [57, 57], left = - 5, top' = - 5\<rparr>,
      \<lparr>input = [57, 57], left = 47, top' = - 5\<rparr>,
      \<lparr>input = [57, 57], left = - 5, top' = 47\<rparr>,
      \<lparr>input = [57, 57], left = 47, top' = 47\<rparr>]"

section \<open>Properties\<close>

subsection \<open>Arithmetic of the grid\<close>

lemma tileSize_of_div [code]: "tileSize_of out pad grid = (out - pad * (grid + 1)) div grid"
  unfolding tileSize_of_def by (rule floor_divide_of_int_eq)

lemma row_of_div [code]: "row_of index grid = int index div grid"
proof -
  have "row_of index grid = \<lfloor>real_of_int (int index) / real_of_int grid\<rfloor>"
    by (simp add: row_of_def)
  also have "\<dots> = int index div grid" by (rule floor_divide_of_int_eq)
  finally show ?thesis .
qed

lemma ceil_sqrt_from_spec:
  "k = 0 \<or> (k - 1) * (k - 1) < n \<Longrightarrow>
   n \<le> ceil_sqrt_from k n * ceil_sqrt_from k n \<and>
   (ceil_sqrt_from k n = 0 \<or> (ceil_sqrt_from k n - 1) * (ceil_sqrt_from k n - 1) < n)"
proof (induction k n rule: ceil_sqrt_from.induct)
  case (1 k n)
  show ?case
  proof (cases "k * k < n")
    case True
    have "ceil_sqrt_from k n = ceil_sqrt_from (Suc k) n"
      using True by (subst ceil_sqrt_from.simps) simp
    moreover have "Suc k = 0 \<or> (Suc k - 1) * (Suc k - 1) < n" using True by simp
    ultimately show ?thesis using "1.IH" [OF True] by simp
  next
    case False
    have "ceil_sqrt_from k n = k"
      using False by (subst ceil_sqrt_from.simps) simp
    then show ?thesis using False "1.prems" by auto
  qed
qed

lemma ceiling_sqrt_eq:
  assumes up: "n \<le> r * r" and lo: "r = 0 \<or> (r - 1) * (r - 1) < n"
  shows "\<lceil>sqrt (real n)\<rceil> = int r"
proof -
  have "sqrt (real n) \<le> sqrt (real (r * r))"
    using up by (simp only: real_sqrt_le_iff of_nat_le_iff)
  then have le: "sqrt (real n) \<le> real r" by simp
  have gt: "real r - 1 < sqrt (real n)"
  proof (cases "r = 0")
    case True
    have "(0::real) \<le> sqrt (real n)" by simp
    then have "(0::real) - 1 < sqrt (real n)" by linarith
    with True show ?thesis by simp
  next
    case False
    with lo have "(r - 1) * (r - 1) < n" by simp
    then have "sqrt (real ((r - 1) * (r - 1))) < sqrt (real n)"
      by (simp only: real_sqrt_less_iff of_nat_less_iff)
    then have "real (r - 1) < sqrt (real n)" by simp
    with False show ?thesis by (simp add: of_nat_diff)
  qed
  show ?thesis
    by (rule ceiling_unique) (use le gt in simp_all)
qed

lemma gridSize_of_code [code]: "gridSize_of n = int (ceil_sqrt_from 0 n)"
  unfolding gridSize_of_def
  using ceil_sqrt_from_spec [of 0 n] by (intro ceiling_sqrt_eq) simp_all

text \<open>The grid is the smallest square that holds all images.\<close>

lemma gridSize_of_upper: "int n \<le> gridSize_of n * gridSize_of n"
proof -
  have "n \<le> ceil_sqrt_from 0 n * ceil_sqrt_from 0 n"
    using ceil_sqrt_from_spec [of 0 n] by simp
  then have "int n \<le> int (ceil_sqrt_from 0 n * ceil_sqrt_from 0 n)"
    by (simp only: of_nat_le_iff)
  then show ?thesis by (simp add: gridSize_of_code)
qed

lemma gridSize_of_pos: "0 < n \<Longrightarrow> 1 \<le> gridSize_of n"
proof -
  assume pos: "0 < n"
  have le: "n \<le> ceil_sqrt_from 0 n * ceil_sqrt_from 0 n"
    using ceil_sqrt_from_spec [of 0 n] by simp
  have "ceil_sqrt_from 0 n \<noteq> 0"
  proof
    assume "ceil_sqrt_from 0 n = 0"
    with le have "n \<le> 0" by simp
    with pos show False by simp
  qed
  then show ?thesis by (simp add: gridSize_of_code)
qed

lemma gridSize_of_lower:
  "0 < n \<Longrightarrow> (gridSize_of n - 1) * (gridSize_of n - 1) < int n"
proof -
  assume pos: "0 < n"
  let ?r = "ceil_sqrt_from 0 n"
  have le: "n \<le> ?r * ?r" using ceil_sqrt_from_spec [of 0 n] by simp
  have nz: "?r \<noteq> 0"
  proof
    assume "?r = 0"
    with le have "n \<le> 0" by simp
    with pos show False by simp
  qed
  then have "(?r - 1) * (?r - 1) < n" using ceil_sqrt_from_spec [of 0 n] by simp
  then have "int ((?r - 1) * (?r - 1)) < int n" by (simp only: of_nat_less_iff)
  moreover have "int (?r - 1) = int ?r - 1" using nz by (simp add: of_nat_diff)
  ultimately show ?thesis by (simp add: gridSize_of_code)
qed

lemma gridSize_of_examples:
  "gridSize_of 1 = 1" "gridSize_of 2 = 2" "gridSize_of 3 = 2" "gridSize_of 4 = 2"
  "gridSize_of 5 = 3" "gridSize_of 6 = 3" "gridSize_of 7 = 3" "gridSize_of 8 = 3"
  "gridSize_of 9 = 3"
  by (simp_all add: gridSize_of_code ceil_sqrt_from.simps)


subsection \<open>Promise.all and the per-image step\<close>

lemma lefts_set: "e \<in> set (lefts rs) \<longleftrightarrow> Inl e \<in> set rs"
  by (induction rs rule: lefts.induct) auto

lemma lefts_Nil_iff: "lefts rs = [] \<longleftrightarrow> rs = map Inr (rights rs)"
  by (induction rs rule: lefts.induct) auto

lemma rights_map_Inr: "rights (map Inr vs) = vs"
  by (induction vs) simp_all

lemma lefts_map_Inr: "lefts (map Inr vs) = []"
  by (induction vs) simp_all

lemma promise_all_Inl: "promise_all first rs = Inl e \<Longrightarrow> Inl e \<in> set rs"
proof -
  assume a: "promise_all first rs = Inl e"
  then have ne: "lefts rs \<noteq> []"
    by (auto simp: promise_all_def Let_def split: if_splits)
  with a have "e = lefts rs ! (first (length (lefts rs)) mod length (lefts rs))"
    by (simp add: promise_all_def Let_def)
  moreover have "first (length (lefts rs)) mod length (lefts rs) < length (lefts rs)"
    using ne by simp
  ultimately have "e \<in> set (lefts rs)" by (metis nth_mem)
  then show ?thesis by (simp add: lefts_set)
qed

lemma promise_all_Inr: "promise_all first rs = Inr vs \<longleftrightarrow> rs = map Inr vs"
proof
  assume a: "promise_all first rs = Inr vs"
  then have "lefts rs = []" and "vs = rights rs"
    by (auto simp: promise_all_def Let_def split: if_splits)
  then show "rs = map Inr vs" by (simp add: lefts_Nil_iff)
next
  assume "rs = map Inr vs"
  then show "promise_all first rs = Inr vs"
    by (simp add: promise_all_def lefts_map_Inr rights_map_Inr)
qed

lemma sharp_resize_error:
  "sharp_resize w d tw th = Inl e \<Longrightarrow> \<exists>m. e = SharpError m"
  by (auto simp: sharp_resize_def split: sum.splits if_splits)

lemma processImage_error:
  assumes "fst (processImage w t img) = Inl e"
  shows "e = Error ''Invalid image data: must be a file path or Buffer''
         \<or> (\<exists>m. e = FsError m) \<or> (\<exists>m. e = SharpError m)"
proof (cases "data img")
  case (Str p)
  show ?thesis
  proof (cases "readFile w p")
    case (Inl m)
    with Str assms have "e = FsError m" by (simp add: processImage_def)
    then show ?thesis by blast
  next
    case (Inr b)
    with Str assms have "sharp_resize w (Buf b) t t = Inl e" by (simp add: processImage_def)
    then show ?thesis using sharp_resize_error by blast
  qed
next
  case (Buf b)
  with assms have "sharp_resize w (Buf b) t t = Inl e" by (simp add: processImage_def)
  then show ?thesis using sharp_resize_error by blast
next
  case (Other v)
  with assms show ?thesis by (simp add: processImage_def)
qed

subsection \<open>The three phases of \<open>TileGrid\<close>\<close>

lemma TileGrid_empty:
  "TileGrid w [] options = (Inl (Error ''No images provided''), [])"
  by (simp add: TileGrid_def)

lemma TileGrid_too_small:
  assumes "images \<noteq> []"
    and "tileSize_of (output options) (padding_of options) (gridSize_of (length images)) \<le> 0"
  shows "TileGrid w images options =
           (Inl (Error ''Output size is too small for the number of images and padding''), [])"
  using assms by (simp add: TileGrid_def Let_def)

lemma TileGrid_rejected:
  assumes "images \<noteq> []"
    and "0 < tileSize_of (output options) (padding_of options) (gridSize_of (length images))"
    and "promise_all (first_rejection w)
           (map (\<lambda>img. fst (processImage w
              (tileSize_of (output options) (padding_of options) (gridSize_of (length images)))
              img)) images) = Inl e"
  shows "TileGrid w images options =
           (Inl e, concat (map (\<lambda>img. snd (processImage w
              (tileSize_of (output options) (padding_of options) (gridSize_of (length images)))
              img)) images))"
  using assms by (simp add: TileGrid_def Let_def comp_def)

lemma TileGrid_composited:
  assumes "images \<noteq> []"
    and "0 < tileSize_of (output options) (padding_of options) (gridSize_of (length images))"
    and "promise_all (first_rejection w)
           (map (\<lambda>img. fst (processImage w
              (tileSize_of (output options) (padding_of options) (gridSize_of (length images)))
              img)) images) = Inr processed"
  shows "TileGrid w images options =
           (case sharp_composite w (output options) (background_of options)
                   (placements processed (gridSize_of (length images))
                      (tileSize_of (output options) (padding_of options)
                         (gridSize_of (length images)))
                      (padding_of options)) of
              Inl m \<Rightarrow> Inl (SharpError m)
            | Inr resultBuffer \<Rightarrow>
                Inr \<lparr>buffer = resultBuffer, gridSize = gridSize_of (length images),
                     count = length images\<rparr>,
            concat (map (\<lambda>img. snd (processImage w
              (tileSize_of (output options) (padding_of options) (gridSize_of (length images)))
              img)) images)
            @ [SharpComposite (output options) (background_of options)
                 (placements processed (gridSize_of (length images))
                    (tileSize_of (output options) (padding_of options)
                       (gridSize_of (length images)))
                    (padding_of options))])"
  using assms by (simp add: TileGrid_def Let_def comp_def split: sum.splits)


lemmas demo_simps =
  TileGrid_def Let_def gridSize_of_code ceil_sqrt_from.simps tileSize_of_div
  processImage_def demo_world_def demo_images_def demo_options_def small_options_def
  sharp_resize_def promise_all_def placements_def left_of_def top_of_def row_of_div col_of_def
  cover_fit_def cover_scale_def extract_region_def background_of_def padding_of_def

lemma demo_run:
  "TileGrid demo_world demo_images demo_options =
    (Inr \<lparr>buffer = [300, 300], gridSize = 2, count = 3\<rparr>,
     [ReadFile ''generated-image-0.png'', SharpResize (Buf [200, 100]) 142 142,
      SharpResize (Buf [60, 60]) 142 142,
      ReadFile ''generated-image-2.png'', SharpResize (Buf [200, 100]) 142 142,
      SharpComposite 300 ''transparent''
        [\<lparr>input = [142, 142], left = 5, top' = 5\<rparr>,
         \<lparr>input = [142, 142], left = 152, top' = 5\<rparr>,
         \<lparr>input = [142, 142], left = 5, top' = 152\<rparr>]])"
  by (simp add: demo_simps upt_rec [of 0] upt_rec [of 1] upt_rec [of 2])

lemma demo_small:
  "TileGrid demo_world demo_images small_options =
    (Inl (Error ''Output size is too small for the number of images and padding''), [])"
  by (simp add: demo_simps)


lemma demo_call:
  "SharpComposite 300 ''transparent'' demo_overlays
     \<in> set (snd (TileGrid demo_world demo_images demo_options))"
  by (simp add: demo_run demo_overlays_def)

lemma demo_geometry:
  "length demo_images = 3" "padding_of demo_options = 5" "output demo_options = 300"
  "gridSize_of 3 = 2" "tileSize_of 300 5 2 = 142"
  by (simp_all add: demo_images_def demo_options_def padding_of_def gridSize_of_code
      ceil_sqrt_from.simps tileSize_of_div)

lemma TileGrid_Inr_cases:
  assumes "fst (TileGrid w images options) = Inr out"
  shows "images \<noteq> [] \<and> gridSize out = gridSize_of (length images)
         \<and> count out = length images"
proof -
  let ?t = "tileSize_of (output options) (padding_of options) (gridSize_of (length images))"
  let ?rs = "map (\<lambda>img. fst (processImage w ?t img)) images"
  have ne: "images \<noteq> []" using assms by (auto simp: TileGrid_empty)
  have pos: "0 < ?t"
  proof (rule ccontr)
    assume "\<not> 0 < ?t"
    then have "?t \<le> 0" by simp
    from TileGrid_too_small [OF ne this] assms show False by simp
  qed
  show ?thesis
  proof (cases "promise_all (first_rejection w) ?rs")
    case (Inl e)
    from TileGrid_rejected [OF ne pos Inl] assms show ?thesis by simp
  next
    case (Inr processed)
    from TileGrid_composited [OF ne pos Inr] assms show ?thesis
      using ne by (auto split: sum.splits)
  qed
qed

lemma TileGrid_late_error:
  assumes ne: "images \<noteq> []"
    and pos: "0 < tileSize_of (output options) (padding_of options) (gridSize_of (length images))"
    and err: "fst (TileGrid w images options) = Inl e"
  shows "e = Error ''Invalid image data: must be a file path or Buffer''
         \<or> (\<exists>m. e = FsError m) \<or> (\<exists>m. e = SharpError m)"
proof -
  let ?t = "tileSize_of (output options) (padding_of options) (gridSize_of (length images))"
  let ?rs = "map (\<lambda>img. fst (processImage w ?t img)) images"
  show ?thesis
  proof (cases "promise_all (first_rejection w) ?rs")
    case (Inl e')
    from TileGrid_rejected [OF ne pos Inl] err have "e' = e" by simp
    with Inl have "Inl e \<in> set ?rs" using promise_all_Inl by blast
    then obtain img where "fst (processImage w ?t img) = Inl e" by auto
    then show ?thesis by (rule processImage_error)
  next
    case (Inr processed)
    from TileGrid_composited [OF ne pos Inr] err have "\<exists>m. e = SharpError m"
      by (auto split: sum.splits)
    then show ?thesis by blast
  qed
qed

lemma lefts_all_Inr:
  "\<forall>r \<in> set rs. \<exists>v. r = Inr v \<Longrightarrow> lefts rs = []"
  by (induction rs rule: lefts.induct) auto

text \<open>
  \<open>TileGrid\<close> does return: with at least one image, a positive tile size, every
  per-image step fulfilled and a compositor that accepts the tiles, the result is an
  \<open>Output\<close>.
\<close>

lemma TileGrid_returns:
  assumes ne: "images \<noteq> []"
    and pos: "0 < tileSize_of (output options) (padding_of options) (gridSize_of (length images))"
    and steps: "\<forall>img \<in> set images. \<exists>b. fst (processImage w
                  (tileSize_of (output options) (padding_of options)
                     (gridSize_of (length images))) img) = Inr b"
    and comp: "\<forall>ovs. \<exists>r. sharp_composite w (output options) (background_of options) ovs = Inr r"
  shows "\<exists>buf. fst (TileGrid w images options) =
           Inr \<lparr>buffer = buf, gridSize = gridSize_of (length images), count = length images\<rparr>"
proof -
  let ?t = "tileSize_of (output options) (padding_of options) (gridSize_of (length images))"
  let ?rs = "map (\<lambda>img. fst (processImage w ?t img)) images"
  have "lefts ?rs = []" using steps by (intro lefts_all_Inr) auto
  then have all: "promise_all (first_rejection w) ?rs = Inr (rights ?rs)"
    by (simp add: promise_all_def)
  let ?ovs = "placements (rights ?rs) (gridSize_of (length images)) ?t (padding_of options)"
  from comp obtain r
    where r: "sharp_composite w (output options) (background_of options) ?ovs = Inr r"
    by blast
  from TileGrid_composited [OF ne pos all] r
  have "fst (TileGrid w images options) =
          Inr \<lparr>buffer = r, gridSize = gridSize_of (length images), count = length images\<rparr>"
    by simp
  then show ?thesis by blast
qed


text \<open>
  C1. For \<open>n \<ge> 1\<close> images \<open>TileGrid\<close> returns an \<open>Output\<close> exactly when the tile size is
  positive, every per-image step is fulfilled and the compositor returns the buffer,
  and the \<open>Output\<close> it returns has \<open>gridSize = ceil(sqrt(n))\<close> and \<open>count = n\<close>; the
  grid size is the least \<open>g\<close> with \<open>n \<le> g * g\<close>.
\<close>

theorem TileGrid_gridSize_count:
  assumes "images \<noteq> []"
  shows "(fst (TileGrid w images options) = Inr out) =
           (0 < tileSize_of (output options) (padding_of options) (gridSize_of (length images))
            \<and> (\<exists>processed.
                  map (\<lambda>img. fst (processImage w
                         (tileSize_of (output options) (padding_of options)
                            (gridSize_of (length images))) img)) images
                    = map Inr processed
                  \<and> sharp_composite w (output options) (background_of options)
                      (placements processed (gridSize_of (length images))
                         (tileSize_of (output options) (padding_of options)
                            (gridSize_of (length images)))
                         (padding_of options))
                    = Inr (buffer out))
            \<and> gridSize out = \<lceil>sqrt (real (length images))\<rceil>
            \<and> count out = length images)
         \<and> (\<lceil>sqrt (real (length images))\<rceil> - 1) * (\<lceil>sqrt (real (length images))\<rceil> - 1)
               < int (length images)
         \<and> int (length images)
               \<le> \<lceil>sqrt (real (length images))\<rceil> * \<lceil>sqrt (real (length images))\<rceil>"
proof -
  let ?g = "gridSize_of (length images)"
  let ?t = "tileSize_of (output options) (padding_of options) ?g"
  let ?rs = "map (\<lambda>img. fst (processImage w ?t img)) images"
  let ?ovs = "\<lambda>processed. placements processed ?g ?t (padding_of options)"
  let ?comp = "\<lambda>processed. sharp_composite w (output options) (background_of options)
                  (?ovs processed)"
  have n: "0 < length images" using assms by simp
  have "fst (TileGrid w images options) = Inr out \<longleftrightarrow>
          0 < ?t \<and> (\<exists>processed. ?rs = map Inr processed \<and> ?comp processed = Inr (buffer out))
          \<and> gridSize out = ?g \<and> count out = length images"
    (is "?L \<longleftrightarrow> ?R")
  proof
    assume L: ?L
    have pos: "0 < ?t"
    proof (rule ccontr)
      assume "\<not> 0 < ?t"
      then have "?t \<le> 0" by simp
      from TileGrid_too_small [OF assms this] L show False by simp
    qed
    show ?R
    proof (cases "promise_all (first_rejection w) ?rs")
      case (Inl e)
      from TileGrid_rejected [OF assms pos Inl] L show ?thesis by simp
    next
      case (Inr processed)
      then have rs: "?rs = map Inr processed" by (simp add: promise_all_Inr)
      show ?thesis
      proof (cases "?comp processed")
        case (Inl m)
        with TileGrid_composited [OF assms pos Inr] L show ?thesis by simp
      next
        case c: (Inr resultBuffer)
        with TileGrid_composited [OF assms pos Inr] L
        have "out = \<lparr>buffer = resultBuffer, gridSize = ?g, count = length images\<rparr>"
          by simp
        with c rs pos show ?thesis by auto
      qed
    qed
  next
    assume R: ?R
    then obtain processed where rs: "?rs = map Inr processed"
      and c: "?comp processed = Inr (buffer out)"
      by blast
    from R have pos: "0 < ?t" by simp
    from rs have all: "promise_all (first_rejection w) ?rs = Inr processed"
      by (simp add: promise_all_Inr)
    from TileGrid_composited [OF assms pos all] c
    have "fst (TileGrid w images options)
            = Inr \<lparr>buffer = buffer out, gridSize = ?g, count = length images\<rparr>"
      by simp
    moreover have "out = \<lparr>buffer = buffer out, gridSize = ?g, count = length images\<rparr>"
      using R by simp
    ultimately show ?L by simp
  qed
  then show ?thesis
    using gridSize_of_lower [OF n] gridSize_of_upper [of "length images"]
    by (simp add: gridSize_of_def)
qed

theorem TileGrid_gridSize_count_witness:
  "demo_images \<noteq> []
   \<and> fst (TileGrid demo_world demo_images demo_options)
       = Inr \<lparr>buffer = [300, 300], gridSize = 2, count = 3\<rparr>
   \<and> gridSize \<lparr>buffer = [300, 300], gridSize = 2, count = 3\<rparr>
       = \<lceil>sqrt (real (length demo_images))\<rceil>
   \<and> count \<lparr>buffer = [300, 300], gridSize = 2, count = 3\<rparr> = length demo_images"
proof -
  let ?out = "\<lparr>buffer = [300, 300], gridSize = 2, count = 3\<rparr>"
  let ?t = "tileSize_of (output demo_options) (padding_of demo_options)
              (gridSize_of (length demo_images))"
  have h1: "demo_images \<noteq> []" by (simp add: demo_images_def)
  have t: "?t = 142" by (simp add: demo_geometry)
  have pos: "0 < ?t" by (simp add: t)
  have steps: "map (\<lambda>img. fst (processImage demo_world ?t img)) demo_images
                 = map Inr [[142, 142], [142, 142], [142, 142]]"
    unfolding t
    by (simp add: demo_images_def processImage_def demo_world_def sharp_resize_def
        cover_fit_def cover_scale_def extract_region_def)
  have comp: "sharp_composite demo_world (output demo_options) (background_of demo_options)
                (placements [[142, 142], [142, 142], [142, 142]]
                   (gridSize_of (length demo_images)) ?t (padding_of demo_options))
                = Inr (buffer ?out)"
    by (simp add: demo_world_def demo_options_def)
  have g: "gridSize ?out = \<lceil>sqrt (real (length demo_images))\<rceil>"
    using demo_geometry(1,4) by (simp add: gridSize_of_def)
  have c: "count ?out = length demo_images" by (simp add: demo_geometry)
  have "fst (TileGrid demo_world demo_images demo_options) = Inr ?out"
    using TileGrid_gridSize_count [OF h1, of demo_world demo_options ?out]
      pos steps comp g c
    by blast
  with h1 g c show ?thesis by blast
qed


text \<open>
  C4 (as amended). \<open>TileGrid\<close> on an empty array fails with the error whose message is
  \<open>No images provided\<close> (without a full stop), for every world and all options, and
  calls no collaborator.
\<close>

theorem TileGrid_no_images:
  "TileGrid w [] options = (Inl (Error ''No images provided''), [])"
  by (simp add: TileGrid_def)

text \<open>
  The message of the source has no full stop at its end, so the error is not the one
  with the message \<open>No images provided.\<close>
\<close>

theorem TileGrid_no_images_message_counterexample:
  "fst (TileGrid demo_world [] demo_options) = Inl (Error ''No images provided'')
   \<and> fst (TileGrid demo_world [] demo_options) \<noteq> Inl (Error ''No images provided.'')"
  by (simp add: TileGrid_def)

text \<open>
  C2 (as amended). For a non-empty array, \<open>TileGrid\<close> fails with the error whose message
  is \<open>Output size is too small for the number of images and padding\<close> (without a full
  stop) exactly when \<open>tileSize = floor((output - padding * (gridSize + 1)) / gridSize)\<close>
  is zero or negative; with \<open>output = 10\<close> and \<open>padding = 50\<close> it does so for every
  non-empty array.
\<close>

theorem TileGrid_geometry_error:
  assumes "images \<noteq> []"
  shows "(fst (TileGrid w images options)
            = Inl (Error ''Output size is too small for the number of images and padding''))
         = (\<lfloor>real_of_int (output options
                  - padding_of options * (gridSize_of (length images) + 1))
               / real_of_int (gridSize_of (length images))\<rfloor> \<le> 0)
       \<and> (output options = 10 \<and> padding options = Some 50 \<longrightarrow>
            fst (TileGrid w images options)
              = Inl (Error ''Output size is too small for the number of images and padding''))"
proof -
  let ?g = "gridSize_of (length images)"
  let ?t = "tileSize_of (output options) (padding_of options) ?g"
  let ?e = "Error ''Output size is too small for the number of images and padding''"
  have iff: "(fst (TileGrid w images options) = Inl ?e) = (?t \<le> 0)"
  proof (cases "?t \<le> 0")
    case True
    from TileGrid_too_small [OF assms True] True show ?thesis by simp
  next
    case False
    then have pos: "0 < ?t" by simp
    have "fst (TileGrid w images options) \<noteq> Inl ?e"
    proof
      assume "fst (TileGrid w images options) = Inl ?e"
      from TileGrid_late_error [OF assms pos this] show False by simp
    qed
    with False show ?thesis by simp
  qed
  have small: "?t \<le> 0" if o: "output options = 10" and p: "padding options = Some 50"
  proof -
    have g: "1 \<le> ?g" using assms by (simp add: gridSize_of_pos)
    then have "10 - 50 * (?g + 1) < 0" by simp
    with g have "(10 - 50 * (?g + 1)) div ?g < 0" by (simp add: div_neg_pos_less0)
    with o p show ?thesis by (simp add: tileSize_of_div padding_of_def)
  qed
  from iff small show ?thesis by (simp add: tileSize_of_def)
qed

theorem TileGrid_geometry_error_witness:
  "demo_images \<noteq> [] \<and> output small_options = 10 \<and> padding small_options = Some 50
   \<and> fst (TileGrid demo_world demo_images small_options)
       = Inl (Error ''Output size is too small for the number of images and padding'')"
proof -
  have h: "demo_images \<noteq> []" by (simp add: demo_images_def)
  have o: "output small_options = 10 \<and> padding small_options = Some 50"
    by (simp add: small_options_def)
  from TileGrid_geometry_error [OF h, of demo_world small_options] o h
  show ?thesis by blast
qed

text \<open>
  Here too the message of the source has no full stop at its end.
\<close>

theorem TileGrid_geometry_message_counterexample:
  "fst (TileGrid demo_world demo_images small_options)
     = Inl (Error ''Output size is too small for the number of images and padding'')
   \<and> fst (TileGrid demo_world demo_images small_options)
     \<noteq> Inl (Error ''Output size is too small for the number of images and padding.'')"
  by (simp add: demo_simps)

text \<open>
  C9. When \<open>TileGrid\<close> fails with one of its two validation errors, it has called
  neither \<open>fs.readFile\<close> nor \<open>sharp\<close>: the list of effects is empty.
\<close>

theorem TileGrid_validation_no_effects:
  assumes "fst (TileGrid w images options) = Inl (Error ''No images provided'')
           \<or> fst (TileGrid w images options)
              = Inl (Error ''Output size is too small for the number of images and padding'')"
  shows "snd (TileGrid w images options) = []"
proof (cases "images = []")
  case True
  then show ?thesis by (simp add: TileGrid_empty)
next
  case ne: False
  let ?t = "tileSize_of (output options) (padding_of options) (gridSize_of (length images))"
  show ?thesis
  proof (cases "?t \<le> 0")
    case True
    from TileGrid_too_small [OF ne True] show ?thesis by simp
  next
    case False
    then have pos: "0 < ?t" by simp
    from assms obtain e where e: "fst (TileGrid w images options) = Inl e"
      and m: "e = Error ''No images provided''
              \<or> e = Error ''Output size is too small for the number of images and padding''"
      by blast
    from TileGrid_late_error [OF ne pos e] m have False by auto
    then show ?thesis ..
  qed
qed

theorem TileGrid_validation_no_effects_witness:
  "(fst (TileGrid demo_world demo_images small_options) = Inl (Error ''No images provided'')
    \<or> fst (TileGrid demo_world demo_images small_options)
        = Inl (Error ''Output size is too small for the number of images and padding''))
   \<and> snd (TileGrid demo_world demo_images small_options) = []"
proof -
  have h: "fst (TileGrid demo_world demo_images small_options) = Inl (Error ''No images provided'')
    \<or> fst (TileGrid demo_world demo_images small_options)
        = Inl (Error ''Output size is too small for the number of images and padding'')"
    by (simp add: demo_small)
  from TileGrid_validation_no_effects [OF h] h show ?thesis by blast
qed

subsection \<open>The call to the compositor\<close>

lemma placements_length: "length (placements processed grid tile pad) = length processed"
  by (simp add: placements_def)

lemma placements_nth:
  assumes "i < length processed"
  shows "placements processed grid tile pad ! i =
           \<lparr>input = processed ! i, left = left_of i grid tile pad,
            top' = top_of i grid tile pad\<rparr>"
  using assms by (simp add: placements_def)

lemma processImage_no_composite:
  "SharpComposite out bg ovs \<notin> set (snd (processImage w t img))"
  by (simp add: processImage_def split: js_data.splits sum.splits)

lemma TileGrid_composite_call:
  assumes "SharpComposite out bg ovs \<in> set (snd (TileGrid w images options))"
  shows "images \<noteq> []
         \<and> 0 < tileSize_of (output options) (padding_of options) (gridSize_of (length images))
         \<and> out = output options \<and> bg = background_of options
         \<and> (\<exists>processed.
               map (\<lambda>img. fst (processImage w
                      (tileSize_of (output options) (padding_of options)
                         (gridSize_of (length images))) img)) images
                 = map Inr processed
               \<and> ovs = placements processed (gridSize_of (length images))
                         (tileSize_of (output options) (padding_of options)
                            (gridSize_of (length images)))
                         (padding_of options))"
proof -
  let ?t = "tileSize_of (output options) (padding_of options) (gridSize_of (length images))"
  let ?rs = "map (\<lambda>img. fst (processImage w ?t img)) images"
  let ?effects = "concat (map (\<lambda>img. snd (processImage w ?t img)) images)"
  have ne: "images \<noteq> []" using assms by (auto simp: TileGrid_empty)
  have pos: "0 < ?t"
  proof (rule ccontr)
    assume "\<not> 0 < ?t"
    then have "?t \<le> 0" by simp
    from TileGrid_too_small [OF ne this] assms show False by simp
  qed
  have quiet: "SharpComposite out bg ovs \<notin> set ?effects"
    by (auto simp: processImage_no_composite)
  show ?thesis
  proof (cases "promise_all (first_rejection w) ?rs")
    case (Inl e)
    from TileGrid_rejected [OF ne pos Inl] assms quiet show ?thesis by simp
  next
    case (Inr processed)
    then have rs: "?rs = map Inr processed" by (simp add: promise_all_Inr)
    from TileGrid_composited [OF ne pos Inr] assms quiet
    have "SharpComposite out bg ovs =
            SharpComposite (output options) (background_of options)
              (placements processed (gridSize_of (length images)) ?t (padding_of options))"
      by simp
    with ne pos rs show ?thesis by blast
  qed
qed

subsection \<open>Rows and columns\<close>

lemma col_of_range:
  assumes "0 < n" and "i < n"
  shows "0 \<le> col_of i (gridSize_of n) \<and> col_of i (gridSize_of n) \<le> gridSize_of n - 1"
proof -
  have "0 < gridSize_of n" using gridSize_of_pos [OF assms(1)] by simp
  then show ?thesis by (simp add: col_of_def)
qed

lemma row_of_range:
  assumes "0 < n" and "i < n"
  shows "0 \<le> row_of i (gridSize_of n) \<and> row_of i (gridSize_of n) \<le> gridSize_of n - 1"
proof -
  let ?g = "gridSize_of n"
  have g: "0 < ?g" using gridSize_of_pos [OF assms(1)] by simp
  have "int i < int n" using assms(2) by simp
  also have "\<dots> \<le> ?g * ?g" by (rule gridSize_of_upper)
  finally have "int i < ?g * ?g" .
  have "int i div ?g < ?g"
  proof (rule ccontr)
    assume "\<not> int i div ?g < ?g"
    then have "?g \<le> int i div ?g" by simp
    then have "?g * ?g \<le> ?g * (int i div ?g)" using g by (simp add: mult_left_mono)
    moreover have "?g * (int i div ?g) + int i mod ?g = int i" by simp
    moreover have "0 \<le> int i mod ?g" using g by simp
    ultimately show False using \<open>int i < ?g * ?g\<close> by linarith
  qed
  moreover have "0 \<le> int i div ?g" using g by (simp add: pos_imp_zdiv_nonneg_iff)
  ultimately show ?thesis by (simp add: row_of_div)
qed

lemma index_of_row_col:
  "int i = row_of i grid * grid + col_of i grid"
  by (simp add: row_of_div col_of_def)

text \<open>\<open>tileSize * gridSize\<close> and the padding use up the canvas, up to the remainder.\<close>

lemma tileSize_of_budget:
  "grid * tileSize_of out pad grid + (out - pad * (grid + 1)) mod grid
     = out - pad * (grid + 1)"
  by (simp add: tileSize_of_div)


subsection \<open>Where the tiles lie\<close>

lemma tile_inside:
  assumes n: "0 < n" and i: "i < n"
    and t: "0 < tileSize_of out pad (gridSize_of n)" and p: "0 \<le> pad"
  shows "pad \<le> left_of i (gridSize_of n) (tileSize_of out pad (gridSize_of n)) pad"
    and "left_of i (gridSize_of n) (tileSize_of out pad (gridSize_of n)) pad
           + tileSize_of out pad (gridSize_of n) \<le> out"
    and "pad \<le> top_of i (gridSize_of n) (tileSize_of out pad (gridSize_of n)) pad"
    and "top_of i (gridSize_of n) (tileSize_of out pad (gridSize_of n)) pad
           + tileSize_of out pad (gridSize_of n) \<le> out"
proof -
  let ?g = "gridSize_of n"
  let ?t = "tileSize_of out pad ?g"
  let ?s = "?t + pad"
  have g: "0 < ?g" using gridSize_of_pos [OF n] by simp
  have s: "0 \<le> ?s" using t p by simp
  have r: "0 \<le> (out - pad * (?g + 1)) mod ?g" using g by simp
  have budget: "?g * ?s \<le> out - pad"
    using tileSize_of_budget [of ?g out pad] r by (simp add: algebra_simps)
  have inside: "pad \<le> pad + k * ?s \<and> pad + k * ?s + ?t \<le> out"
    if k: "0 \<le> k" "k \<le> ?g - 1" for k
  proof -
    have "0 \<le> k * ?s" using k(1) s by (rule mult_nonneg_nonneg)
    moreover have "k * ?s \<le> (?g - 1) * ?s" using k(2) s by (rule mult_right_mono)
    moreover have "(?g - 1) * ?s = ?g * ?s - ?s" by (simp add: algebra_simps)
    ultimately show ?thesis using budget p by linarith
  qed
  from inside [OF conjunct1 [OF col_of_range [OF n i]] conjunct2 [OF col_of_range [OF n i]]]
  show "pad \<le> left_of i ?g ?t pad" and "left_of i ?g ?t pad + ?t \<le> out"
    by (simp_all add: left_of_def)
  from inside [OF conjunct1 [OF row_of_range [OF n i]] conjunct2 [OF row_of_range [OF n i]]]
  show "pad \<le> top_of i ?g ?t pad" and "top_of i ?g ?t pad + ?t \<le> out"
    by (simp_all add: top_of_def)
qed

lemma tiles_apart:
  assumes ij: "i \<noteq> j" and t: "0 < tile" and p: "0 \<le> pad"
  shows "left_of i grid tile pad + tile \<le> left_of j grid tile pad
         \<or> left_of j grid tile pad + tile \<le> left_of i grid tile pad
         \<or> top_of i grid tile pad + tile \<le> top_of j grid tile pad
         \<or> top_of j grid tile pad + tile \<le> top_of i grid tile pad"
proof -
  let ?s = "tile + pad"
  have s: "0 \<le> ?s" using t p by simp
  have step: "pad + a * ?s + tile \<le> pad + b * ?s" if "a < b" for a b :: int
  proof -
    from that have "a + 1 \<le> b" by simp
    then have "(a + 1) * ?s \<le> b * ?s" using s by (rule mult_right_mono)
    moreover have "(a + 1) * ?s = a * ?s + ?s" by (simp add: algebra_simps)
    ultimately show ?thesis using p by linarith
  qed
  have "col_of i grid \<noteq> col_of j grid \<or> row_of i grid \<noteq> row_of j grid"
  proof (rule ccontr)
    assume "\<not> ?thesis"
    then have "int i = int j"
      using index_of_row_col [of i grid] index_of_row_col [of j grid] by simp
    with ij show False by simp
  qed
  then consider "col_of i grid < col_of j grid" | "col_of j grid < col_of i grid"
    | "row_of i grid < row_of j grid" | "row_of j grid < row_of i grid"
    by linarith
  then show ?thesis
  proof cases
    case 1 from step [OF 1] show ?thesis by (simp add: left_of_def)
  next
    case 2 from step [OF 2] show ?thesis by (simp add: left_of_def)
  next
    case 3 from step [OF 3] show ?thesis by (simp add: top_of_def)
  next
    case 4 from step [OF 4] show ?thesis by (simp add: top_of_def)
  qed
qed

lemma first_margin:
  "col_of i grid = 0 \<Longrightarrow> left_of i grid tile pad = pad"
  "row_of i grid = 0 \<Longrightarrow> top_of i grid tile pad = pad"
  by (simp_all add: left_of_def top_of_def)

lemma last_margin_aux:
  fixes k grid tile pad out r :: int
  assumes k: "k = grid - 1" and budget: "grid * tile + r = out - pad * (grid + 1)"
  shows "out - (pad + k * (tile + pad) + tile) = pad + r"
proof -
  have "k * (tile + pad) = grid * tile + grid * pad - tile - pad"
    unfolding k by (simp add: algebra_simps)
  moreover have "pad * (grid + 1) = grid * pad + pad" by (simp add: algebra_simps)
  ultimately show ?thesis using budget by linarith
qed

lemma last_margin:
  "col_of i grid = grid - 1 \<Longrightarrow>
     out - (left_of i grid (tileSize_of out pad grid) pad + tileSize_of out pad grid)
       = pad + (out - pad * (grid + 1)) mod grid"
  "row_of i grid = grid - 1 \<Longrightarrow>
     out - (top_of i grid (tileSize_of out pad grid) pad + tileSize_of out pad grid)
       = pad + (out - pad * (grid + 1)) mod grid"
  unfolding left_of_def top_of_def
  by (rule last_margin_aux, assumption, rule tileSize_of_budget)+


lemma four_run:
  "snd (TileGrid demo_world four_images demo_options) =
     [ReadFile ''generated-image-0.png'', SharpResize (Buf [200, 100]) 142 142,
      ReadFile ''generated-image-1.png'', SharpResize (Buf [200, 100]) 142 142,
      ReadFile ''generated-image-2.png'', SharpResize (Buf [200, 100]) 142 142,
      ReadFile ''generated-image-3.png'', SharpResize (Buf [200, 100]) 142 142,
      SharpComposite 300 ''transparent'' four_overlays]"
  by (simp add: demo_simps four_images_def four_overlays_def
      upt_rec [of 0] upt_rec [of 1] upt_rec [of 2] upt_rec [of 3])

lemma negative_run:
  "snd (TileGrid demo_world four_images negative_options) =
     [ReadFile ''generated-image-0.png'', SharpResize (Buf [200, 100]) 57 57,
      ReadFile ''generated-image-1.png'', SharpResize (Buf [200, 100]) 57 57,
      ReadFile ''generated-image-2.png'', SharpResize (Buf [200, 100]) 57 57,
      ReadFile ''generated-image-3.png'', SharpResize (Buf [200, 100]) 57 57,
      SharpComposite 100 ''transparent'' negative_overlays]"
  by (simp add: demo_simps four_images_def negative_options_def negative_overlays_def
      upt_rec [of 0] upt_rec [of 1] upt_rec [of 2] upt_rec [of 3])

lemma negative_result:
  "fst (TileGrid demo_world four_images negative_options) =
     Inr \<lparr>buffer = [100, 100], gridSize = 2, count = 4\<rparr>"
  by (simp add: demo_simps four_images_def negative_options_def
      upt_rec [of 0] upt_rec [of 1] upt_rec [of 2] upt_rec [of 3])


lemma TileGrid_overlay:
  assumes call: "SharpComposite out bg ovs \<in> set (snd (TileGrid w images options))"
    and i: "i < length images"
    and g: "g = gridSize_of (length images)"
    and t: "t = tileSize_of (output options) (padding_of options) g"
  shows "length ovs = length images"
    and "fst (processImage w t (images ! i)) = Inr (input (ovs ! i))"
    and "left (ovs ! i) = left_of i g t (padding_of options)"
    and "top' (ovs ! i) = top_of i g t (padding_of options)"
proof -
  from TileGrid_composite_call [OF call] obtain processed
    where rs: "map (\<lambda>img. fst (processImage w t img)) images = map Inr processed"
      and ovs: "ovs = placements processed g t (padding_of options)"
    unfolding g t by blast
  from rs have len: "length processed = length images"
    by (metis length_map)
  then show "length ovs = length images" by (simp add: ovs placements_length)
  from rs have "map (\<lambda>img. fst (processImage w t img)) images ! i = map Inr processed ! i"
    by simp
  then have pi: "fst (processImage w t (images ! i)) = Inr (processed ! i)"
    using i len by simp
  have "ovs ! i = \<lparr>input = processed ! i, left = left_of i g t (padding_of options),
                    top' = top_of i g t (padding_of options)\<rparr>"
    using i len by (simp add: ovs placements_nth)
  with pi show "fst (processImage w t (images ! i)) = Inr (input (ovs ! i))"
    and "left (ovs ! i) = left_of i g t (padding_of options)"
    and "top' (ovs ! i) = top_of i g t (padding_of options)"
    by simp_all
qed




text \<open>
  C10. In a composition with non-negative padding, every tile handed to the
  compositor lies inside the canvas and keeps the padding to its top and left edge.
  (A call to the compositor is made only for \<open>count \<ge> 1\<close> and \<open>tileSize > 0\<close>.)
\<close>

theorem TileGrid_tile_inside_canvas:
  assumes "images \<noteq> []"
    and "SharpComposite out bg ovs \<in> set (snd (TileGrid w images options))"
    and "t = tileSize_of (output options) (padding_of options) (gridSize_of (length images))"
    and "0 < t"
    and "0 \<le> padding_of options"
    and "i < length images"
  shows "padding_of options \<le> left (ovs ! i) \<and> padding_of options \<le> top' (ovs ! i)
         \<and> left (ovs ! i) + t \<le> output options \<and> top' (ovs ! i) + t \<le> output options"
proof -
  have n: "0 < length images" using assms(1) by simp
  note ov = TileGrid_overlay [OF assms(2) assms(6) refl assms(3)]
  show ?thesis
    using tile_inside [OF n assms(6) assms(4) [unfolded assms(3)] assms(5)]
    unfolding ov(3) ov(4) assms(3) by simp
qed

theorem TileGrid_tile_inside_canvas_witness:
  "demo_images \<noteq> []
   \<and> SharpComposite 300 ''transparent'' demo_overlays
       \<in> set (snd (TileGrid demo_world demo_images demo_options))
   \<and> (142::int) = tileSize_of (output demo_options) (padding_of demo_options)
                     (gridSize_of (length demo_images))
   \<and> (0::int) < 142 \<and> 0 \<le> padding_of demo_options \<and> (2::nat) < length demo_images
   \<and> padding_of demo_options \<le> left (demo_overlays ! 2)
   \<and> padding_of demo_options \<le> top' (demo_overlays ! 2)
   \<and> left (demo_overlays ! 2) + 142 \<le> output demo_options
   \<and> top' (demo_overlays ! 2) + 142 \<le> output demo_options"
proof -
  have h1: "demo_images \<noteq> []" and h6: "(2::nat) < length demo_images"
    by (simp_all add: demo_images_def)
  have h3: "(142::int) = tileSize_of (output demo_options) (padding_of demo_options)
                     (gridSize_of (length demo_images))"
    and h4: "(0::int) < 142" and h5: "0 \<le> padding_of demo_options"
    by (simp_all add: demo_geometry)
  from TileGrid_tile_inside_canvas [OF h1 demo_call h3 h4 h5 h6] h1 demo_call h3 h4 h5 h6
  show ?thesis by blast
qed


subsection \<open>Compositing tiles that do not overlap\<close>

lemma draw_elsewhere:
  "\<forall>a \<in> set ovs. \<not> covers tile a x y \<Longrightarrow>
   foldl (draw blend tile) canvas ovs x y = canvas x y"
proof (induction ovs arbitrary: canvas)
  case Nil
  show ?case by simp
next
  case (Cons b rest)
  then have "foldl (draw blend tile) (draw blend tile canvas b) rest x y
               = draw blend tile canvas b x y"
    by simp
  moreover have "draw blend tile canvas b x y = canvas x y"
    using Cons.prems by (simp add: draw_def)
  ultimately show ?case by simp
qed

lemma draw_once:
  assumes "distinct ovs" and "a \<in> set ovs" and "covers tile a x y"
    and "\<forall>b \<in> set ovs. b \<noteq> a \<longrightarrow> \<not> covers tile b x y"
  shows "foldl (draw blend tile) canvas ovs x y = blend a x y (canvas x y)"
  using assms
proof (induction ovs arbitrary: canvas)
  case Nil
  then show ?case by simp
next
  case (Cons b rest)
  show ?case
  proof (cases "b = a")
    case True
    with Cons.prems have "\<forall>c \<in> set rest. \<not> covers tile c x y" by auto
    then have "foldl (draw blend tile) (draw blend tile canvas a) rest x y
                 = draw blend tile canvas a x y"
      by (rule draw_elsewhere)
    moreover have "draw blend tile canvas a x y = blend a x y (canvas x y)"
      using Cons.prems(3) by (simp add: draw_def)
    ultimately show ?thesis using True by simp
  next
    case False
    with Cons.prems have a: "a \<in> set rest" and d: "distinct rest"
      and o: "\<forall>c \<in> set rest. c \<noteq> a \<longrightarrow> \<not> covers tile c x y"
      and b: "\<not> covers tile b x y"
      by auto
    from Cons.IH [OF d a Cons.prems(3) o]
    have "foldl (draw blend tile) (draw blend tile canvas b) rest x y
            = blend a x y (draw blend tile canvas b x y)" .
    moreover have "draw blend tile canvas b x y = canvas x y"
      using b by (simp add: draw_def)
    ultimately show ?thesis by simp
  qed
qed

lemma composite_pixels_reorder:
  assumes apart: "\<forall>a \<in> set ovs. \<forall>b \<in> set ovs. a \<noteq> b \<longrightarrow>
                    \<not> (covers tile a x y \<and> covers tile b x y)"
    and d: "distinct ovs" and d': "distinct ovs'" and same: "set ovs' = set ovs"
  shows "composite_pixels blend tile canvas ovs' x y = composite_pixels blend tile canvas ovs x y"
proof (cases "\<exists>a \<in> set ovs. covers tile a x y")
  case True
  then obtain a where a: "a \<in> set ovs" "covers tile a x y" by blast
  with apart have others: "\<forall>b \<in> set ovs. b \<noteq> a \<longrightarrow> \<not> covers tile b x y" by blast
  have "foldl (draw blend tile) canvas ovs x y = blend a x y (canvas x y)"
    using d a others by (rule draw_once)
  moreover have "foldl (draw blend tile) canvas ovs' x y = blend a x y (canvas x y)"
    using d' a others unfolding same [symmetric] by (rule draw_once)
  ultimately show ?thesis by (simp add: composite_pixels_def)
next
  case False
  then have none: "\<forall>a \<in> set ovs. \<not> covers tile a x y" by blast
  have "foldl (draw blend tile) canvas ovs x y = canvas x y"
    using none by (rule draw_elsewhere)
  moreover have "foldl (draw blend tile) canvas ovs' x y = canvas x y"
    using none unfolding same [symmetric] by (rule draw_elsewhere)
  ultimately show ?thesis by (simp add: composite_pixels_def)
qed

lemma covers_apart:
  assumes "left a + tile \<le> left b \<or> left b + tile \<le> left a
           \<or> top' a + tile \<le> top' b \<or> top' b + tile \<le> top' a"
  shows "\<not> (covers tile a x y \<and> covers tile b x y)"
  using assms unfolding covers_def by linarith

lemma TileGrid_overlays_apart:
  assumes call: "SharpComposite out bg ovs \<in> set (snd (TileGrid w images options))"
    and t: "t = tileSize_of (output options) (padding_of options) (gridSize_of (length images))"
    and p: "0 \<le> padding_of options"
    and i: "i < length images" and j: "j < length images" and ij: "i \<noteq> j"
  shows "\<not> (covers t (ovs ! i) x y \<and> covers t (ovs ! j) x y)"
proof -
  have pos: "0 < t" using TileGrid_composite_call [OF call] t by simp
  note oi = TileGrid_overlay [OF call i refl t]
  note oj = TileGrid_overlay [OF call j refl t]
  show ?thesis
    using tiles_apart [OF ij pos p, of "gridSize_of (length images)"]
    unfolding oi(3) [symmetric] oi(4) [symmetric] oj(3) [symmetric] oj(4) [symmetric]
    by (rule covers_apart)
qed

text \<open>
  C6 (as amended). With a positive tile size and a non-negative padding, the
  \<open>tileSize \<times> tileSize\<close> squares of two different tiles handed to the compositor
  share no pixel, and a compositor that changes only the pixels under a tile,
  whatever it blends there, yields the same canvas for every order of the tiles.
\<close>

theorem TileGrid_tiles_disjoint:
  assumes "SharpComposite out bg ovs \<in> set (snd (TileGrid w images options))"
    and "t = tileSize_of (output options) (padding_of options) (gridSize_of (length images))"
    and "0 < t"
    and "0 \<le> padding_of options"
    and "i < length images" and "j < length images" and "i \<noteq> j"
    and "distinct ovs'" and "set ovs' = set ovs"
  shows "\<not> (covers t (ovs ! i) x y \<and> covers t (ovs ! j) x y)
         \<and> composite_pixels blend t canvas ovs' = composite_pixels blend t canvas ovs"
proof
  show "\<not> (covers t (ovs ! i) x y \<and> covers t (ovs ! j) x y)"
    using assms(1,2,4,5,6,7) by (rule TileGrid_overlays_apart)
next
  have len: "length ovs = length images"
    using TileGrid_overlay(1) [OF assms(1) assms(5) refl assms(2)] .
  have apart: "\<not> (covers t (ovs ! k) u v \<and> covers t (ovs ! l) u v)"
    if "k < length ovs" "l < length ovs" "k \<noteq> l" for k l u v
    using TileGrid_overlays_apart [OF assms(1,2,4)] that len by simp
  have corner: "covers t (ovs ! k) (left (ovs ! k)) (top' (ovs ! k))" for k
    using assms(3) by (simp add: covers_def)
  have d: "distinct ovs"
    unfolding distinct_conv_nth
  proof (intro allI impI)
    fix k l assume kl: "k < length ovs" "l < length ovs" "k \<noteq> l"
    show "ovs ! k \<noteq> ovs ! l"
    proof
      assume "ovs ! k = ovs ! l"
      with corner [of k] have "covers t (ovs ! k) (left (ovs ! k)) (top' (ovs ! k))
          \<and> covers t (ovs ! l) (left (ovs ! k)) (top' (ovs ! k))" by simp
      with apart [OF kl] show False by blast
    qed
  qed
  have sets: "\<forall>a \<in> set ovs. \<forall>b \<in> set ovs. a \<noteq> b \<longrightarrow>
                    \<not> (covers t a u v \<and> covers t b u v)" for u v
  proof (intro ballI impI)
    fix a b assume "a \<in> set ovs" "b \<in> set ovs" "a \<noteq> b"
    then obtain k l where "k < length ovs" "l < length ovs" "a = ovs ! k" "b = ovs ! l"
      by (metis in_set_conv_nth)
    with \<open>a \<noteq> b\<close> apart [of k l u v] show "\<not> (covers t a u v \<and> covers t b u v)"
      by auto
  qed
  show "composite_pixels blend t canvas ovs' = composite_pixels blend t canvas ovs"
  proof (intro ext)
    fix u v
    show "composite_pixels blend t canvas ovs' u v = composite_pixels blend t canvas ovs u v"
      using sets d assms(8) assms(9) by (rule composite_pixels_reorder)
  qed
qed


theorem TileGrid_tiles_disjoint_witness:
  "SharpComposite 300 ''transparent'' demo_overlays
       \<in> set (snd (TileGrid demo_world demo_images demo_options))
   \<and> (142::int) = tileSize_of (output demo_options) (padding_of demo_options)
                     (gridSize_of (length demo_images))
   \<and> (0::int) < 142 \<and> 0 \<le> padding_of demo_options
   \<and> (0::nat) < length demo_images \<and> (1::nat) < length demo_images \<and> (0::nat) \<noteq> 1
   \<and> distinct (rev demo_overlays) \<and> set (rev demo_overlays) = set demo_overlays
   \<and> \<not> (covers 142 (demo_overlays ! 0) 100 100 \<and> covers 142 (demo_overlays ! 1) 100 100)
   \<and> composite_pixels (\<lambda>ov x y c. Suc c) 142 (\<lambda>x y. 0::nat) (rev demo_overlays)
       = composite_pixels (\<lambda>ov x y c. Suc c) 142 (\<lambda>x y. 0) demo_overlays"
proof -
  have h2: "(142::int) = tileSize_of (output demo_options) (padding_of demo_options)
                     (gridSize_of (length demo_images))"
    and h3: "(0::int) < 142" and h4: "0 \<le> padding_of demo_options"
    by (simp_all add: demo_geometry)
  have h5: "(0::nat) < length demo_images" and h6: "(1::nat) < length demo_images"
    and h7: "(0::nat) \<noteq> 1"
    by (simp_all add: demo_images_def)
  have h8: "distinct (rev demo_overlays)" by (simp add: demo_overlays_def)
  have h9: "set (rev demo_overlays) = set demo_overlays" by simp
  from TileGrid_tiles_disjoint [OF demo_call h2 h3 h4 h5 h6 h7 h8 h9,
      of 100 100 "\<lambda>ov x y c. Suc c" "\<lambda>x y. 0"]
    demo_call h2 h3 h4 h5 h6 h7 h8 h9
  show ?thesis by blast
qed

text \<open>
  With a negative padding the tiles can overlap. Four images, \<open>output = 100\<close> and
  \<open>padding = -5\<close> give a tile size of \<open>floor(115 / 2) = 57\<close>; tile 0 lies at
  \<open>left = -5\<close> and tile 1 at \<open>left = 47\<close>, both at \<open>top = -5\<close>, and both cover the
  pixel \<open>(47, 10)\<close>.
\<close>

theorem TileGrid_tiles_overlap_counterexample:
  "SharpComposite 100 ''transparent'' negative_overlays
       \<in> set (snd (TileGrid demo_world four_images negative_options))
   \<and> fst (TileGrid demo_world four_images negative_options)
       = Inr \<lparr>buffer = [100, 100], gridSize = 2, count = 4\<rparr>
   \<and> tileSize_of (output negative_options) (padding_of negative_options)
        (gridSize_of (length four_images)) = 57
   \<and> (0::nat) < length four_images \<and> (1::nat) < length four_images \<and> (0::nat) \<noteq> 1
   \<and> covers 57 (negative_overlays ! 0) 47 10
   \<and> covers 57 (negative_overlays ! 1) 47 10"
proof -
  have "SharpComposite 100 ''transparent'' negative_overlays
       \<in> set (snd (TileGrid demo_world four_images negative_options))"
    by (simp add: negative_run)
  moreover have "tileSize_of (output negative_options) (padding_of negative_options)
        (gridSize_of (length four_images)) = 57"
    by (simp add: negative_options_def four_images_def padding_of_def gridSize_of_code
        ceil_sqrt_from.simps tileSize_of_div)
  moreover have "(0::nat) < length four_images \<and> (1::nat) < length four_images \<and> (0::nat) \<noteq> 1"
    by (simp add: four_images_def)
  moreover have "covers 57 (negative_overlays ! 0) 47 10 \<and> covers 57 (negative_overlays ! 1) 47 10"
    by (simp add: covers_def negative_overlays_def)
  ultimately show ?thesis using negative_result by blast
qed

lemma margin_formula:
  fixes c g t p out r :: int
  assumes "g * t + r = out - p * (g + 1)"
  shows "out - (p + c * (t + p) + t) = p + r + (g - 1 - c) * (t + p)"
proof -
  from assms have out: "out = g * t + r + p * (g + 1)" by simp
  show ?thesis unfolding out by (simp add: algebra_simps)
qed

text \<open>
  C7 (as amended). Tile 0 sits at \<open>left = padding\<close>, \<open>top = padding\<close>. For the tile at
  index \<open>i\<close>, \<open>output - (left + tileSize) = padding + r + (gridSize - 1 - i mod
  gridSize) * (tileSize + padding)\<close> and \<open>output - (top + tileSize) = padding + r +
  (gridSize - 1 - floor(i / gridSize)) * (tileSize + padding)\<close>, where \<open>r = (output -
  padding * (gridSize + 1)) mod gridSize\<close>, with \<open>0 \<le> r < gridSize\<close>, is what the
  rounding down of \<open>tileSize\<close> leaves over. So for a tile in column \<open>gridSize - 1\<close>
  the first is \<open>padding + r\<close>, and for a tile in row \<open>gridSize - 1\<close> the second is.
\<close>

theorem TileGrid_margins:
  assumes "images \<noteq> []"
    and "SharpComposite out bg ovs \<in> set (snd (TileGrid w images options))"
    and "i < length images"
    and "g = gridSize_of (length images)"
    and "p = padding_of options"
    and "t = tileSize_of (output options) p g"
    and "r = (output options - p * (g + 1)) mod g"
  shows "left (ovs ! 0) = p \<and> top' (ovs ! 0) = p
         \<and> output options - (left (ovs ! i) + t) = p + r + (g - 1 - int i mod g) * (t + p)
         \<and> output options - (top' (ovs ! i) + t) = p + r + (g - 1 - int i div g) * (t + p)
         \<and> (int i mod g = g - 1 \<longrightarrow> output options - (left (ovs ! i) + t) = p + r)
         \<and> (int i div g = g - 1 \<longrightarrow> output options - (top' (ovs ! i) + t) = p + r)
         \<and> 0 \<le> r \<and> r < g"
proof -
  have n: "0 < length images" using assms(1) by simp
  have g: "0 < g" using gridSize_of_pos [OF n] assms(4) by simp
  have t: "t = tileSize_of (output options) (padding_of options) g"
    using assms(5,6) by simp
  note o0 = TileGrid_overlay [OF assms(2) n assms(4) t]
  note oi = TileGrid_overlay [OF assms(2) assms(3) assms(4) t]
  have budget: "g * t + r = output options - p * (g + 1)"
    unfolding assms(6) assms(7) by (rule tileSize_of_budget)
  have first: "left (ovs ! 0) = p" "top' (ovs ! 0) = p"
    using o0(3) o0(4) assms(5) by (simp_all add: left_of_def top_of_def col_of_def row_of_div)
  have right: "output options - (left (ovs ! i) + t) = p + r + (g - 1 - int i mod g) * (t + p)"
    using margin_formula [OF budget, of "int i mod g"] oi(3) assms(5)
    by (simp add: left_of_def col_of_def)
  have below: "output options - (top' (ovs ! i) + t) = p + r + (g - 1 - int i div g) * (t + p)"
    using margin_formula [OF budget, of "int i div g"] oi(4) assms(5)
    by (simp add: top_of_def row_of_div)
  have r: "0 \<le> r" "r < g" using g assms(7) by simp_all
  have "int i mod g = g - 1 \<longrightarrow> output options - (left (ovs ! i) + t) = p + r"
    using right by simp
  moreover have "int i div g = g - 1 \<longrightarrow> output options - (top' (ovs ! i) + t) = p + r"
    using below by simp
  ultimately show ?thesis using first right below r by blast
qed

theorem TileGrid_margins_witness:
  "four_images \<noteq> []
   \<and> SharpComposite 300 ''transparent'' four_overlays
       \<in> set (snd (TileGrid demo_world four_images demo_options))
   \<and> (3::nat) < length four_images
   \<and> (2::int) = gridSize_of (length four_images)
   \<and> (5::int) = padding_of demo_options
   \<and> (142::int) = tileSize_of (output demo_options) 5 2
   \<and> (1::int) = (output demo_options - 5 * (2 + 1)) mod 2
   \<and> int 3 mod 2 = (2::int) - 1 \<and> int 3 div 2 = (2::int) - 1
   \<and> left (four_overlays ! 0) = 5 \<and> top' (four_overlays ! 0) = 5
   \<and> output demo_options - (left (four_overlays ! 3) + 142) = 5 + 1
   \<and> output demo_options - (top' (four_overlays ! 3) + 142) = 5 + 1"
proof -
  have h1: "four_images \<noteq> []" and h3: "(3::nat) < length four_images"
    by (simp_all add: four_images_def)
  have h2: "SharpComposite 300 ''transparent'' four_overlays
       \<in> set (snd (TileGrid demo_world four_images demo_options))"
    by (simp add: four_run)
  have h4: "(2::int) = gridSize_of (length four_images)"
    by (simp add: four_images_def gridSize_of_code ceil_sqrt_from.simps)
  have h5: "(5::int) = padding_of demo_options"
    and h6: "(142::int) = tileSize_of (output demo_options) 5 2"
    and h7: "(1::int) = (output demo_options - 5 * (2 + 1)) mod 2"
    by (simp_all add: demo_geometry)
  have c: "int 3 mod 2 = (2::int) - 1" and q: "int 3 div 2 = (2::int) - 1" by simp_all
  from TileGrid_margins [OF h1 h2 h3 h4 h5 h6 h7] c q
  have "left (four_overlays ! 0) = 5 \<and> top' (four_overlays ! 0) = 5
   \<and> output demo_options - (left (four_overlays ! 3) + 142) = 5 + 1
   \<and> output demo_options - (top' (four_overlays ! 3) + 142) = 5 + 1"
    by blast
  with h1 h2 h3 h4 h5 h6 h7 c q show ?thesis by blast
qed

text \<open>
  The margins are not always the padding. With three images, \<open>output = 300\<close> and
  \<open>padding = 5\<close> the tile size is \<open>floor(285 / 2) = 142\<close>, and right of tile 1, in
  the last column, 6 pixels remain. With two images, \<open>output = 200\<close> and
  \<open>padding = 20\<close> the last occupied row is row 0, and 110 pixels remain below it.
\<close>

theorem TileGrid_margin_counterexample:
  "SharpComposite 300 ''transparent'' demo_overlays
       \<in> set (snd (TileGrid demo_world demo_images demo_options))
   \<and> tileSize_of 300 5 (gridSize_of 3) = 142
   \<and> col_of 1 (gridSize_of 3) = gridSize_of 3 - 1
   \<and> 300 - (left (demo_overlays ! 1) + 142) = 6
   \<and> 300 - (left (demo_overlays ! 1) + 142) \<noteq> (5::int)
   \<and> tileSize_of 200 20 (gridSize_of 2) = 70
   \<and> row_of 1 (gridSize_of 2) = 0
   \<and> 200 - (top_of 1 (gridSize_of 2) 70 20 + 70) = 110
   \<and> 200 - (top_of 1 (gridSize_of 2) 70 20 + 70) \<noteq> (20::int)"
proof -
  have "tileSize_of 300 5 (gridSize_of 3) = 142 \<and> col_of 1 (gridSize_of 3) = gridSize_of 3 - 1
    \<and> 300 - (left (demo_overlays ! 1) + 142) = 6
    \<and> 300 - (left (demo_overlays ! 1) + 142) \<noteq> (5::int)
    \<and> tileSize_of 200 20 (gridSize_of 2) = 70
    \<and> row_of 1 (gridSize_of 2) = 0
    \<and> 200 - (top_of 1 (gridSize_of 2) 70 20 + 70) = 110
    \<and> 200 - (top_of 1 (gridSize_of 2) 70 20 + 70) \<noteq> (20::int)"
    by (simp add: demo_overlays_def gridSize_of_code ceil_sqrt_from.simps
        tileSize_of_div col_of_def row_of_div top_of_def)
  with demo_call show ?thesis by blast
qed


subsection \<open>Data that is neither a path nor a buffer\<close>

text \<open>
  For \<open>image.data\<close> that is neither a string nor a \<open>Buffer\<close>, the per-image step of
  \<open>TileGrid\<close> fails with the error \<open>Invalid image data: must be a file path or Buffer\<close>
  and calls no collaborator. \<open>resize\<close> lacks the check: it hands the value to \<open>sharp\<close>
  as it is, its result is whatever \<open>sharp\<close> makes of the value, and it never fails
  with that error.
\<close>

lemma resize_lacks_data_check:
  assumes "data img = Other v"
  shows "processImage w t img
           = (Inl (Error ''Invalid image data: must be a file path or Buffer''), [])
         \<and> resize w img sz = (sharp_resize w (Other v) sz sz, [SharpResize (Other v) sz sz])
         \<and> fst (resize w img sz)
           \<noteq> Inl (Error ''Invalid image data: must be a file path or Buffer'')"
proof -
  have r: "resize w img sz = (sharp_resize w (Other v) sz sz, [SharpResize (Other v) sz sz])"
    using assms by (simp add: resize_def)
  have "sharp_resize w (Other v) sz sz
          \<noteq> Inl (Error ''Invalid image data: must be a file path or Buffer'')"
    using sharp_resize_error [of w "Other v" sz sz] by auto
  with r assms show ?thesis by (simp add: processImage_def)
qed

text \<open>
  C5. For data that is neither a path nor a buffer, the per-image step of \<open>TileGrid\<close>
  and \<open>resize\<close> are to fail alike, with the invalid-input error. The per-image step
  does; \<open>resize\<close> does not. Given a typed array, which the codec takes as input,
  \<open>resize\<close> returns a resized image, and given a number it fails with the error of
  the codec.
\<close>

theorem resize_invalid_data_run:
  "fst (processImage demo_world 150 typed_array_input)
     = Inl (Error ''Invalid image data: must be a file path or Buffer'')
   \<and> fst (resize demo_world typed_array_input 150) = Inr [150, 150]
   \<and> fst (processImage demo_world 150 number_input)
     = Inl (Error ''Invalid image data: must be a file path or Buffer'')
   \<and> fst (resize demo_world number_input 150) = Inl (SharpError ''Unsupported input'')"
  by (simp add: processImage_def resize_def sharp_resize_def demo_world_def
      typed_array_input_def number_input_def cover_fit_def cover_scale_def extract_region_def)

subsection \<open>The square resize\<close>

lemma cover_scale_fills:
  assumes "0 < w" and "0 < h" and "cover_scale w h tw th = (sw, sh)"
  shows "tw \<le> sw \<and> th \<le> sh"
proof (cases "th * w \<le> tw * h")
  case True
  then have "th * w \<le> h * tw + w - 1" using assms(1) by (simp add: mult.commute)
  then have "th \<le> (h * tw + w - 1) div w"
    using assms(1) by (simp add: less_eq_div_iff_mult_less_eq)
  with True assms(3) show ?thesis by (auto simp: cover_scale_def)
next
  case False
  then have "tw * h \<le> w * th + h - 1" using assms(2) by (simp add: mult.commute)
  then have "tw \<le> (w * th + h - 1) div h"
    using assms(2) by (simp add: less_eq_div_iff_mult_less_eq)
  with False assms(3) show ?thesis by (auto simp: cover_scale_def)
qed

lemma cover_fit_dims:
  assumes "0 < width im" and "0 < height im"
  shows "width (cover_fit w im tw th) = tw \<and> height (cover_fit w im tw th) = th"
proof -
  obtain sw sh where sc: "cover_scale (width im) (height im) tw th = (sw, sh)"
    by (cases "cover_scale (width im) (height im) tw th") simp
  from cover_scale_fills [OF assms sc] have "tw \<le> sw" "th \<le> sh" by simp_all
  then have "tw \<le> sw - (sw - tw) div 2" "th \<le> sh - (sh - th) div 2" by linarith+
  then show ?thesis by (simp add: cover_fit_def sc extract_region_def)
qed

text \<open>
  C8. For an input that resolves to bytes \<open>b\<close> (a readable path or a buffer) which
  \<open>sharp\<close> decodes to an image, and a positive \<open>size\<close>, \<open>resize\<close> returns the encoding
  of an image of exactly \<open>size \<times> size\<close> pixels, whatever the dimensions of the source:
  the cover-fit scales the source until it fills the square and crops the rest.
\<close>

theorem resize_square:
  assumes "0 < sz"
    and "data img = Str path \<and> readFile w path = Inr b \<or> data img = Buf b"
    and "decode w (Buf b) = Inr im"
    and "0 < width im" and "0 < height im"
  shows "fst (resize w img sz) = Inr (encode w (cover_fit w im (nat sz) (nat sz)))
         \<and> width (cover_fit w im (nat sz) (nat sz)) = nat sz
         \<and> height (cover_fit w im (nat sz) (nat sz)) = nat sz"
proof -
  have "sharp_resize w (Buf b) sz sz = Inr (encode w (cover_fit w im (nat sz) (nat sz)))"
    using assms(1,3) by (simp add: sharp_resize_def)
  moreover have "fst (resize w img sz) = sharp_resize w (Buf b) sz sz"
    using assms(2) by (auto simp: resize_def)
  ultimately show ?thesis using cover_fit_dims [OF assms(4,5)] by simp
qed

theorem resize_square_witness:
  "(0::int) < 150
   \<and> (data path_input = Str ''resize-test-generated.png''
        \<and> readFile demo_world ''resize-test-generated.png'' = Inr [200, 100]
      \<or> data path_input = Buf [200, 100])
   \<and> decode demo_world (Buf [200, 100]) = Inr \<lparr>width = 200, height = 100, pixel = (\<lambda>x y. 0)\<rparr>
   \<and> 0 < width \<lparr>width = 200, height = 100, pixel = (\<lambda>x y. 0)\<rparr>
   \<and> 0 < height \<lparr>width = 200, height = 100, pixel = (\<lambda>x y. 0)\<rparr>
   \<and> fst (resize demo_world path_input 150) = Inr [150, 150]"
proof -
  let ?im = "\<lparr>width = 200, height = 100, pixel = (\<lambda>x y. 0)\<rparr>"
  have h1: "(0::int) < 150" by simp
  have h2: "data path_input = Str ''resize-test-generated.png''
        \<and> readFile demo_world ''resize-test-generated.png'' = Inr [200, 100]
      \<or> data path_input = Buf [200, 100]"
    by (simp add: path_input_def demo_world_def)
  have h3: "decode demo_world (Buf [200, 100]) = Inr ?im" by (simp add: demo_world_def)
  have h4: "0 < width ?im" and h5: "0 < height ?im" by simp_all
  have e: "encode demo_world (cover_fit demo_world ?im (nat 150) (nat 150)) = [150, 150]"
    using resize_square [OF h1 h2 h3 h4 h5] by (simp add: demo_world_def)
  from resize_square [OF h1 h2 h3 h4 h5] e h1 h2 h3 show ?thesis by simp
qed

end
